theory Spec2Isabelle
  imports Complex_Main "HOL-Library.Multiset"
begin

section \<open>The word picker: a shallow embedding of \<open>index.js\<close>\<close>

text \<open>
  The repository is one JavaScript function, \<open>getWords(options, amountOfWords,
  customWordsArray, customErrorHandler)\<close>, with its helper \<open>calculateScrabbleScore\<close>.
  The embedding follows the function statement by statement.

  Scope of the model:
  \<^item> Words are ASCII strings (\<open>char list\<close>); \<open>toLowerCase\<close> and \<open>toUpperCase\<close> act on the
    letters A-Z and a-z only.
  \<^item> The call passes \<open>customWordsArray\<close> as an array of strings, so the word list is that
    array; reading \<open>words.txt\<close> or \<open>words.js\<close> and the \<open>console.log\<close> lines are left out.
  \<^item> \<open>amountOfWords\<close> is any JavaScript value: a finite number (a rational, so fractions are
    covered), \<open>NaN\<close>, \<open>Infinity\<close>, \<open>-Infinity\<close>, or a value that is not of type number.
  \<^item> The caller's procedures (\<open>pattern\<close>, \<open>customFilter\<close>, \<open>customShuffle\<close>,
    \<open>customEntropyCalculator\<close>) are total functions; \<open>customShuffle\<close>, which mutates the array
    it is given, is the function from the array before to the array after.
  \<^item> \<open>Math.random()\<close> is an ambient source the function does not control: the model takes
    the draws as a parameter \<open>rnd\<close>. The \<open>k\<close>-th call of one invocation (from 0) returns the
    double \<open>(m mod 2^53) / 2^(53 + e)\<close> for \<open>rnd k = (m, e)\<close>: every double in \<open>[0, 1)\<close> has this
    form. The product with \<open>i + 1\<close> is rounded to the nearest double, ties to even, as the
    multiplication of two doubles is, before \<open>Math.floor\<close>.
  \<^item> \<open>weightedSelection\<close> is a plain object whose own properties are integers; a key it does
    not own but inherits from \<open>Object.prototype\<close> reads as that inherited object.
  \<^item> \<open>localeCompare\<close> is the order of the character codes. The sort compares the
    lower-case forms of the words, which are words of the letters a-z unless
    \<open>allowSpecialChars\<close> is set; on these the order of the character codes is the order of
    the root collation (a locale with contractions, or a word with other characters, is
    outside the model).
  \<^item> \<open>history\<close> is a \<open>Set\<close> the caller owns; \<open>getWords\<close> returns the set after the call beside
    its result. A thrown exception is the left summand of the result.
\<close>

subsection \<open>Strings\<close>

definition toLowerChar :: "char \<Rightarrow> char" where
  "toLowerChar c =
     (let n = (of_char c :: nat) in if 65 \<le> n \<and> n \<le> 90 then char_of (n + 32) else c)"

definition toUpperChar :: "char \<Rightarrow> char" where
  "toUpperChar c =
     (let n = (of_char c :: nat) in if 97 \<le> n \<and> n \<le> 122 then char_of (n - 32) else c)"

definition toLowerCase :: "string \<Rightarrow> string" where
  "toLowerCase w = map toLowerChar w"

definition toUpperCase :: "string \<Rightarrow> string" where
  "toUpperCase w = map toUpperChar w"

fun startsWith :: "string \<Rightarrow> string \<Rightarrow> bool" where
  "startsWith w [] = True"
| "startsWith [] (p # ps) = False"
| "startsWith (c # cs) (p # ps) = (c = p \<and> startsWith cs ps)"

definition endsWith :: "string \<Rightarrow> string \<Rightarrow> bool" where
  "endsWith w s = startsWith (rev w) (rev s)"

fun includesStr :: "string \<Rightarrow> string \<Rightarrow> bool" where
  "includesStr [] s = (s = [])"
| "includesStr (c # cs) s = (startsWith (c # cs) s \<or> includesStr cs s)"

text \<open>\<open>s.slice(-2)\<close>: the last two characters, or all of a shorter string.\<close>

definition sliceLastTwo :: "string \<Rightarrow> string" where
  "sliceLastTwo s = drop (length s - 2) s"

text \<open>The regular expressions of the source, as tests on a word.\<close>

definition isDigit :: "char \<Rightarrow> bool" where
  "isDigit c = (let n = (of_char c :: nat) in 48 \<le> n \<and> n \<le> 57)"

definition isAsciiLetter :: "char \<Rightarrow> bool" where
  "isAsciiLetter c =
     (let n = (of_char c :: nat) in (65 \<le> n \<and> n \<le> 90) \<or> (97 \<le> n \<and> n \<le> 122))"

definition isVowel :: "char \<Rightarrow> bool" where
  "isVowel c = (c \<in> set ''aeiou'')"

text \<open>\<open>/[l1I0O]/i\<close>: with the \<open>i\<close> flag a character matches when its upper-case form is the
  upper-case form of a member of the class.\<close>

definition ambiguousChars :: "string \<Rightarrow> bool" where
  "ambiguousChars w = list_ex (\<lambda>c. toUpperChar c \<in> set (map toUpperChar ''l1I0O'')) w"

definition hasDigit :: "string \<Rightarrow> bool" where
  "hasDigit w = list_ex isDigit w"

definition hasNonLetter :: "string \<Rightarrow> bool" where
  "hasNonLetter w = list_ex (\<lambda>c. \<not> isAsciiLetter c) w"

fun joinWith :: "string \<Rightarrow> string list \<Rightarrow> string" where
  "joinWith sep [] = []"
| "joinWith sep [w] = w"
| "joinWith sep (w # v # ws) = w @ sep @ joinWith sep (v # ws)"

subsection \<open>Errors, arguments and results\<close>

datatype error =
  ConfigError    \<comment> \<open>\<open>Error("'amountOfWords' must be a positive number.")\<close>\<close>
| TypeError      \<comment> \<open>a method call on \<open>undefined\<close>\<close>

text \<open>The argument \<open>amountOfWords\<close>, and the three tests the function makes on it:
  \<open>typeof amountOfWords !== 'number'\<close>, \<open>amountOfWords <= 0\<close>, \<open>amountOfWords === 0\<close>. A
  comparison with \<open>NaN\<close> is false. (\<open>lessEqZero\<close> is not evaluated on a value that is not a
  number: the \<open>||\<close> of the guard has thrown before.)\<close>

datatype amount = Number rat | NaN | PosInfinity | NegInfinity | NonNumber

fun typeofNotNumber :: "amount \<Rightarrow> bool" where
  "typeofNotNumber NonNumber = True"
| "typeofNotNumber a = False"

fun lessEqZero :: "amount \<Rightarrow> bool" where
  "lessEqZero (Number q) = (q \<le> 0)"
| "lessEqZero NegInfinity = True"
| "lessEqZero a = False"

fun strictEqZero :: "amount \<Rightarrow> bool" where
  "strictEqZero (Number q) = (q = 0)"
| "strictEqZero a = False"

text \<open>\<open>selectedWords.length >= amountOfWords\<close>\<close>

fun lengthReaches :: "nat \<Rightarrow> amount \<Rightarrow> bool" where
  "lengthReaches k (Number q) = (q \<le> of_nat k)"
| "lengthReaches k NegInfinity = True"
| "lengthReaches k a = False"

text \<open>An entropy value of the metadata: the default estimate, kept as the number \<open>n\<close> of
  distinct characters it multiplies (it stands for \<open>n * Math.log2(26)\<close>), or whatever the
  caller's calculator returned.\<close>

datatype entropy = UniqueCharsTimesLog2_26 nat | Calculated real

datatype metadata = Metadata (word: string) (wordLength: nat) (entropy: entropy)

datatype result =
  Words "string list"
| Joined string
| WithMetadata "metadata list"

subsection \<open>The options object\<close>

text \<open>One field per option the function reads, in the order of its destructuring; an option
  without a default is \<open>None\<close> when it is \<open>undefined\<close>.\<close>

record config =
  lengthMin :: "int option"
  lengthMax :: "int option"
  fixLength :: "int option"
  reverse :: bool
  asString :: bool
  sort_opt :: "string option"
  caseOption :: "string option"
  filterStartsWith :: "string list option"
  filterEndsWith :: "string list option"
  excludeSubstrings :: "string list option"
  blacklist :: "string list option"
  whitelist :: "string list option"
  languages :: "string list option"
  excludeAmbiguous :: bool
  pattern :: "(string \<Rightarrow> bool) option"
  phoneticDistinct :: bool
  includeMetadata :: bool
  history :: "string set"
  seed :: "int option"
  weightedSelection :: "(string \<rightharpoonup> int) option"
  customShuffle :: "(string list \<Rightarrow> string list) option"
  uniqueCharacters :: bool
  maxRepeatLetters :: "int option"
  allowNumbers :: bool
  allowSpecialChars :: bool
  customEntropyCalculator :: "(string \<Rightarrow> real) option"
  syllableCount :: "int option"
  excludePartsOfSpeech :: "string list option"
  includePartsOfSpeech :: "string list option"
  limitSyllables :: "int option"
  excludeWordOrigins :: "string list option"
  includeWordOrigins :: "string list option"
  excludeProperNouns :: bool
  excludeSlang :: bool
  synonyms :: "string list option"
  excludeHomonyms :: bool
  includeHomonyms :: bool
  excludeCompoundWords :: bool
  excludeAbbreviations :: bool
  onlyMonosyllabic :: bool
  onlyPolysyllabic :: bool
  limitVowels :: "string list option"
  excludeSpecificVowels :: "string list option"
  includeRhymeWith :: "string option"
  excludeRhymeWith :: "string option"
  scrabbleScoreRange :: "(int \<times> int) option"
  excludeLetters :: "string list option"
  includeLetters :: "string list option"
  mustContainAllLetters :: "string list option"
  mustContainAnyLetters :: "string list option"
  excludeWordsWithRepeatingLetters :: bool
  minConsonants :: "int option"
  minVowels :: "int option"
  customFilter :: "(string \<Rightarrow> bool) option"

text \<open>The options object \<open>{}\<close>: every default of the destructuring.\<close>

definition defaultConfig :: config where
  "defaultConfig = \<lparr>
     lengthMin = None, lengthMax = None, fixLength = None,
     reverse = False, asString = False, sort_opt = None, caseOption = None,
     filterStartsWith = None, filterEndsWith = None, excludeSubstrings = None,
     blacklist = None, whitelist = None, languages = None,
     excludeAmbiguous = False, pattern = None, phoneticDistinct = True,
     includeMetadata = False, history = {}, seed = None,
     weightedSelection = None, customShuffle = None,
     uniqueCharacters = False, maxRepeatLetters = None,
     allowNumbers = False, allowSpecialChars = False,
     customEntropyCalculator = None,
     syllableCount = None, excludePartsOfSpeech = None, includePartsOfSpeech = None,
     limitSyllables = None, excludeWordOrigins = None, includeWordOrigins = None,
     excludeProperNouns = False, excludeSlang = False, synonyms = None,
     excludeHomonyms = False, includeHomonyms = False,
     excludeCompoundWords = False, excludeAbbreviations = False,
     onlyMonosyllabic = False, onlyPolysyllabic = False,
     limitVowels = None, excludeSpecificVowels = None,
     includeRhymeWith = None, excludeRhymeWith = None,
     scrabbleScoreRange = None,
     excludeLetters = None, includeLetters = None,
     mustContainAllLetters = None, mustContainAnyLetters = None,
     excludeWordsWithRepeatingLetters = False,
     minConsonants = None, minVowels = None, customFilter = None \<rparr>"

text \<open>\<open>x && Array.isArray(x) && x.length > 0\<close>\<close>

fun nonEmptyArray :: "'a list option \<Rightarrow> bool" where
  "nonEmptyArray None = False"
| "nonEmptyArray (Some []) = False"
| "nonEmptyArray (Some (x # xs)) = True"

text \<open>\<open>s && typeof s === 'string'\<close>: the empty string is falsy.\<close>

fun nonEmptyString :: "string option \<Rightarrow> bool" where
  "nonEmptyString None = False"
| "nonEmptyString (Some []) = False"
| "nonEmptyString (Some (c # cs)) = True"

subsection \<open>The scoring helpers\<close>

definition scores :: "(char \<times> int) list" where
  "scores =
     [(CHR ''a'', 1), (CHR ''b'', 3), (CHR ''c'', 3), (CHR ''d'', 2), (CHR ''e'', 1),
      (CHR ''f'', 4), (CHR ''g'', 2), (CHR ''h'', 4), (CHR ''i'', 1),
      (CHR ''j'', 8), (CHR ''k'', 5), (CHR ''l'', 1), (CHR ''m'', 3), (CHR ''n'', 1),
      (CHR ''o'', 1), (CHR ''p'', 3), (CHR ''q'', 10),
      (CHR ''r'', 1), (CHR ''s'', 1), (CHR ''t'', 1), (CHR ''u'', 1), (CHR ''v'', 4),
      (CHR ''w'', 4), (CHR ''x'', 8), (CHR ''y'', 4),
      (CHR ''z'', 10)]"

definition calculateScrabbleScore :: "string \<Rightarrow> int" where
  "calculateScrabbleScore w =
     foldl (\<lambda>acc c. acc + (case map_of scores c of None \<Rightarrow> 0 | Some s \<Rightarrow> s)) 0 (toLowerCase w)"

definition calculateEntropy :: "config \<Rightarrow> string \<Rightarrow> entropy" where
  "calculateEntropy cfg w =
     (case customEntropyCalculator cfg of
        Some f \<Rightarrow> Calculated (f w)
      | None \<Rightarrow> UniqueCharsTimesLog2_26 (length (remdups (toLowerCase w))))"

text \<open>The table \<open>codes\<close> of \<open>soundex\<close>: a vowel has the empty code, a letter that is not listed
  has none (\<open>undefined\<close>).\<close>

definition codes :: "(char \<times> string) list" where
  "codes =
     [(CHR ''a'', ''''), (CHR ''e'', ''''), (CHR ''i'', ''''), (CHR ''o'', ''''), (CHR ''u'', ''''),
      (CHR ''b'', ''1''), (CHR ''f'', ''1''), (CHR ''p'', ''1''), (CHR ''v'', ''1''),
      (CHR ''c'', ''2''), (CHR ''g'', ''2''), (CHR ''j'', ''2''), (CHR ''k'', ''2''),
      (CHR ''q'', ''2''), (CHR ''s'', ''2''), (CHR ''x'', ''2''), (CHR ''z'', ''2''),
      (CHR ''d'', ''3''), (CHR ''t'', ''3''),
      (CHR ''l'', ''4''),
      (CHR ''m'', ''5''), (CHR ''n'', ''5''),
      (CHR ''r'', ''6'')]"

text \<open>The \<open>forEach\<close> over the letters after the first: \<open>code && code !== prev\<close>.\<close>

fun soundexLoop :: "string \<Rightarrow> string list \<Rightarrow> string \<Rightarrow> string list" where
  "soundexLoop [] soundexArr prev = soundexArr"
| "soundexLoop (c # cs) soundexArr prev =
     (case map_of codes c of
        None \<Rightarrow> soundexLoop cs soundexArr prev
      | Some code \<Rightarrow>
          if code \<noteq> [] \<and> code \<noteq> prev then soundexLoop cs (soundexArr @ [code]) code
          else soundexLoop cs soundexArr prev)"

text \<open>\<open>while (soundexArr.length < 4) soundexArr.push('0')\<close>\<close>

function padZeros :: "string list \<Rightarrow> string list" where
  "padZeros soundexArr =
     (if length soundexArr < 4 then padZeros (soundexArr @ [''0'']) else soundexArr)"
  by pat_completeness auto
termination
  by (relation "measure (\<lambda>soundexArr. 4 - length soundexArr)") auto

text \<open>On the empty word \<open>a.shift()\<close> is \<open>undefined\<close> and \<open>f.toUpperCase()\<close> throws.\<close>

definition soundex :: "string \<Rightarrow> error + string" where
  "soundex w =
     (case toLowerCase w of
        [] \<Rightarrow> Inl TypeError
      | f # a \<Rightarrow> Inr (concat (take 4 (padZeros (soundexLoop a [[toUpperChar f]] [])))))"

subsection \<open>The filter callback\<close>

text \<open>The loop of \<open>maxRepeatLetters\<close>: \<open>letterCounts[char] = (letterCounts[char] || 0) + 1\<close>,
  rejecting as soon as a count exceeds the bound.\<close>

fun repeatsExceed :: "(char \<Rightarrow> nat) \<Rightarrow> int \<Rightarrow> string \<Rightarrow> bool" where
  "repeatsExceed letterCounts m [] = False"
| "repeatsExceed letterCounts m (c # cs) =
     (let n = letterCounts c + 1 in
      if int n > m then True else repeatsExceed (letterCounts(c := n)) m cs)"

text \<open>The arrow function given to \<open>defaultWords.filter\<close>: the checks in the order of the
  source, each \<open>return false\<close> a branch to \<open>False\<close>.\<close>

definition passesFilters :: "config \<Rightarrow> string \<Rightarrow> bool" where
  "passesFilters cfg w =
    (let lowerWord = toLowerCase w in
     if (case whitelist cfg of Some wl \<Rightarrow> lowerWord \<notin> set (map toLowerCase wl) | None \<Rightarrow> False)
       then False
     else if (case blacklist cfg of Some bl \<Rightarrow> lowerWord \<in> set (map toLowerCase bl) | None \<Rightarrow> False)
       then False
     else if nonEmptyArray (languages cfg) then False
     else if (case fixLength cfg of Some n \<Rightarrow> int (length w) \<noteq> n | None \<Rightarrow> False) then False
     else if (case lengthMin cfg of Some n \<Rightarrow> int (length w) < n | None \<Rightarrow> False) then False
     else if (case lengthMax cfg of Some n \<Rightarrow> int (length w) > n | None \<Rightarrow> False) then False
     else if excludeAmbiguous cfg \<and> ambiguousChars w then False
     else if nonEmptyArray (filterStartsWith cfg)
          \<and> \<not> list_ex (\<lambda>prefix. startsWith lowerWord (toLowerCase prefix))
                (the (filterStartsWith cfg))
       then False
     else if nonEmptyArray (filterEndsWith cfg)
          \<and> \<not> list_ex (\<lambda>suffix. endsWith lowerWord (toLowerCase suffix))
                (the (filterEndsWith cfg))
       then False
     else if nonEmptyArray (excludeSubstrings cfg)
          \<and> list_ex (\<lambda>sub. includesStr lowerWord (toLowerCase sub)) (the (excludeSubstrings cfg))
       then False
     else if (case pattern cfg of Some test \<Rightarrow> \<not> test w | None \<Rightarrow> False) then False
     else if lowerWord \<in> history cfg then False
     else if uniqueCharacters cfg \<and> length (remdups lowerWord) \<noteq> length w then False
     else if (case maxRepeatLetters cfg of
                Some m \<Rightarrow> m > 0 \<and> repeatsExceed (\<lambda>c. 0) m lowerWord
              | None \<Rightarrow> False)
       then False
     else if \<not> allowNumbers cfg \<and> hasDigit w then False
     else if \<not> allowSpecialChars cfg \<and> hasNonLetter w then False
     else if syllableCount cfg \<noteq> None then False
     else if nonEmptyArray (excludePartsOfSpeech cfg) then False
     else if nonEmptyArray (includePartsOfSpeech cfg) then False
     else if limitSyllables cfg \<noteq> None then False
     else if nonEmptyArray (excludeWordOrigins cfg) then False
     else if nonEmptyArray (includeWordOrigins cfg) then False
     else if excludeProperNouns cfg then False
     else if excludeSlang cfg then False
     else if nonEmptyArray (synonyms cfg) then False
     else if excludeHomonyms cfg then False
     else if includeHomonyms cfg then False
     else if excludeCompoundWords cfg then False
     else if excludeAbbreviations cfg then False
     else if onlyMonosyllabic cfg then False
     else if onlyPolysyllabic cfg then False
     else if nonEmptyArray (limitVowels cfg)
          \<and> \<not> list_ex (\<lambda>vowel. includesStr lowerWord (toLowerCase vowel)) (the (limitVowels cfg))
       then False
     else if nonEmptyArray (excludeSpecificVowels cfg)
          \<and> list_ex (\<lambda>vowel. includesStr lowerWord (toLowerCase vowel))
                (the (excludeSpecificVowels cfg))
       then False
     else if nonEmptyString (includeRhymeWith cfg)
          \<and> \<not> endsWith lowerWord (toLowerCase (sliceLastTwo (the (includeRhymeWith cfg))))
       then False
     else if nonEmptyString (excludeRhymeWith cfg)
          \<and> endsWith lowerWord (toLowerCase (sliceLastTwo (the (excludeRhymeWith cfg))))
       then False
     else if (case scrabbleScoreRange cfg of
                Some (minScore, maxScore) \<Rightarrow>
                  calculateScrabbleScore w < minScore \<or> calculateScrabbleScore w > maxScore
              | None \<Rightarrow> False)
       then False
     else if nonEmptyArray (excludeLetters cfg)
          \<and> list_ex (\<lambda>letter. includesStr lowerWord (toLowerCase letter)) (the (excludeLetters cfg))
       then False
     else if nonEmptyArray (includeLetters cfg)
          \<and> \<not> list_ex (\<lambda>letter. includesStr lowerWord (toLowerCase letter))
                (the (includeLetters cfg))
       then False
     else if nonEmptyArray (mustContainAllLetters cfg)
          \<and> \<not> list_all (\<lambda>letter. includesStr lowerWord (toLowerCase letter))
                (the (mustContainAllLetters cfg))
       then False
     else if nonEmptyArray (mustContainAnyLetters cfg)
          \<and> \<not> list_ex (\<lambda>letter. includesStr lowerWord (toLowerCase letter))
                (the (mustContainAnyLetters cfg))
       then False
     else if excludeWordsWithRepeatingLetters cfg \<and> length (remdups lowerWord) \<noteq> length lowerWord
       then False
     else if (case minConsonants cfg of
                Some n \<Rightarrow> int (length (filter (\<lambda>c. \<not> isVowel c) lowerWord)) < n
              | None \<Rightarrow> False)
       then False
     else if (case minVowels cfg of
                Some n \<Rightarrow> int (length (filter isVowel lowerWord)) < n
              | None \<Rightarrow> False)
       then False
     else if (case customFilter cfg of Some keep \<Rightarrow> \<not> keep w | None \<Rightarrow> False) then False
     else True)"

subsection \<open>The stages after the filter\<close>

text \<open>Phonetic distinctness: the second \<open>filter\<close>, with the object \<open>phoneticMap\<close> it writes to.
  An exception of \<open>soundex\<close> leaves the whole call.\<close>

fun phoneticFilter :: "(string \<rightharpoonup> bool) \<Rightarrow> string list \<Rightarrow> error + string list" where
  "phoneticFilter phoneticMap [] = Inr []"
| "phoneticFilter phoneticMap (w # ws) =
     (case soundex w of
        Inl e \<Rightarrow> Inl e
      | Inr s \<Rightarrow>
          if phoneticMap s = Some True then phoneticFilter phoneticMap ws
          else (case phoneticFilter (phoneticMap(s \<mapsto> True)) ws of
                  Inl e \<Rightarrow> Inl e
                | Inr kept \<Rightarrow> Inr (w # kept)))"

text \<open>Weighted selection: \<open>weightedSelection[word.toLowerCase()] || 1\<close>, where \<open>0\<close> is falsy as
  \<open>undefined\<close> is, and a loop \<open>for (i = 0; i < weight; i++)\<close> that pushes the word. The map holds
  the object's own properties. The lower-case keys a plain object inherits are
  \<open>constructor\<close> (a function) and \<open>__proto__\<close> (an object): both are truthy, and as a number
  both are \<open>NaN\<close>, so the loop does not run.\<close>

datatype weight = Weight int | InheritedObject

definition inheritedKeys :: "string list" where
  "inheritedKeys = [''constructor'', ''__proto__'']"

definition weightOf :: "(string \<rightharpoonup> int) \<Rightarrow> string \<Rightarrow> weight" where
  "weightOf ws w =
     (case ws (toLowerCase w) of
        Some k \<Rightarrow> if k = 0 then Weight 1 else Weight k
      | None \<Rightarrow> if toLowerCase w \<in> set inheritedKeys then InheritedObject else Weight 1)"

fun copies :: "weight \<Rightarrow> nat" where
  "copies (Weight k) = nat k"
| "copies InheritedObject = 0"

definition weightedWords :: "(string \<rightharpoonup> int) \<Rightarrow> string list \<Rightarrow> string list" where
  "weightedWords ws filteredWords =
     concat (map (\<lambda>w. replicate (copies (weightOf ws w)) w) filteredWords)"

definition applyWeightedSelection :: "config \<Rightarrow> string list \<Rightarrow> string list" where
  "applyWeightedSelection cfg filteredWords =
     (case weightedSelection cfg of
        Some ws \<Rightarrow> weightedWords ws filteredWords
      | None \<Rightarrow> filteredWords)"

text \<open>The default shuffle. \<open>[array[i], array[j]] = [array[j], array[i]]\<close> reads both elements
  and then writes both; \<open>j = Math.floor(Math.random() * (i + 1))\<close> with the \<open>k\<close>-th draw.\<close>

definition swap :: "nat \<Rightarrow> nat \<Rightarrow> 'a list \<Rightarrow> 'a list" where
  "swap i j array = (array[i := array ! j])[j := array ! i]"

text \<open>The product of the doubles \<open>m / 2^(53 + e)\<close> and \<open>n\<close> is the exact product \<open>m * n\<close>,
  rounded to 53 significant bits (to nearest, ties to even), over \<open>2^(53 + e)\<close>.
  \<open>excessBits p\<close> is the number of low bits that \<open>p\<close> has beyond 53.\<close>

function excessBits :: "int \<Rightarrow> nat" where
  "excessBits p = (if p < 2 ^ 53 then 0 else Suc (excessBits (p div 2)))"
  by pat_completeness auto
termination
  by (relation "measure nat") auto

definition roundToDouble :: "int \<Rightarrow> int" where
  "roundToDouble p =
     (let s = excessBits p; q = p div 2 ^ s; r = p mod 2 ^ s in
      if s = 0 then p
      else if 2 ^ (s - 1) < r \<or> (r = 2 ^ (s - 1) \<and> odd q) then (q + 1) * 2 ^ s
      else q * 2 ^ s)"

type_synonym draw = "int \<times> nat"

definition randomIndex :: "draw \<Rightarrow> nat \<Rightarrow> nat" where
  "randomIndex d n =
     nat (roundToDouble ((fst d mod 2 ^ 53) * int n) div 2 ^ (53 + snd d))"

fun fisherYates :: "(nat \<Rightarrow> draw) \<Rightarrow> nat \<Rightarrow> nat \<Rightarrow> 'a list \<Rightarrow> 'a list" where
  "fisherYates rnd k 0 array = array"
| "fisherYates rnd k (Suc i) array =
     fisherYates rnd (Suc k) i (swap (Suc i) (randomIndex (rnd k) (Suc i + 1)) array)"

definition shuffle :: "config \<Rightarrow> (nat \<Rightarrow> draw) \<Rightarrow> string list \<Rightarrow> string list" where
  "shuffle cfg rnd array =
     (case customShuffle cfg of
        Some f \<Rightarrow> f array
      | None \<Rightarrow> fisherYates rnd 0 (length array - 1) array)"

text \<open>\<open>a.localeCompare(b)\<close> on the lower-case forms, as the order of the character codes
  (which is the collation order on words of the letters a-z), and \<open>Array.prototype.sort\<close>
  with a comparator: a stable sort, here by insertion from the right.\<close>

fun localeCompare :: "string \<Rightarrow> string \<Rightarrow> int" where
  "localeCompare [] [] = 0"
| "localeCompare [] (d # ds) = - 1"
| "localeCompare (c # cs) [] = 1"
| "localeCompare (c # cs) (d # ds) =
     (if (of_char c :: nat) < of_char d then - 1
      else if (of_char d :: nat) < of_char c then 1
      else localeCompare cs ds)"

fun insertBy :: "('a \<Rightarrow> 'a \<Rightarrow> int) \<Rightarrow> 'a \<Rightarrow> 'a list \<Rightarrow> 'a list" where
  "insertBy cmp x [] = [x]"
| "insertBy cmp x (y # ys) = (if cmp x y \<le> 0 then x # y # ys else y # insertBy cmp x ys)"

definition sortBy :: "('a \<Rightarrow> 'a \<Rightarrow> int) \<Rightarrow> 'a list \<Rightarrow> 'a list" where
  "sortBy cmp xs = foldr (insertBy cmp) xs []"

definition applySort :: "config \<Rightarrow> string list \<Rightarrow> string list" where
  "applySort cfg filteredWords =
     (if sort_opt cfg = Some ''asc''
        then sortBy (\<lambda>a b. localeCompare (toLowerCase a) (toLowerCase b)) filteredWords
      else if sort_opt cfg = Some ''desc''
        then sortBy (\<lambda>a b. localeCompare (toLowerCase b) (toLowerCase a)) filteredWords
      else filteredWords)"

text \<open>The selection loop, with its counter of attempts.\<close>

definition maxAttempts :: nat where
  "maxAttempts = 1000"

fun selectLoop :: "amount \<Rightarrow> string list \<Rightarrow> string list \<Rightarrow> nat \<Rightarrow> string list" where
  "selectLoop amountOfWords [] selectedWords attempts = selectedWords"
| "selectLoop amountOfWords (w # ws) selectedWords attempts =
     (if lengthReaches (length selectedWords) amountOfWords then selectedWords
      else if Suc attempts \<ge> maxAttempts then selectedWords @ [w]
      else selectLoop amountOfWords ws (selectedWords @ [w]) (Suc attempts))"

text \<open>\<open>word.charAt(0).toUpperCase() + word.slice(1)\<close>\<close>

fun capitalize :: "string \<Rightarrow> string" where
  "capitalize [] = []"
| "capitalize (c # cs) = toUpperChar c # cs"

definition applyCase :: "config \<Rightarrow> string list \<Rightarrow> string list" where
  "applyCase cfg selectedWords =
     (if caseOption cfg = Some ''upper'' then map toUpperCase selectedWords
      else if caseOption cfg = Some ''lower'' then map toLowerCase selectedWords
      else if caseOption cfg = Some ''capitalize'' then map capitalize selectedWords
      else selectedWords)"

text \<open>The \<open>flatMap\<close> of the synonyms option returns \<open>[]\<close> for every word.\<close>

definition applySynonyms :: "config \<Rightarrow> string list \<Rightarrow> string list" where
  "applySynonyms cfg selectedWords =
     (if nonEmptyArray (synonyms cfg) then concat (map (\<lambda>w. []) selectedWords)
      else selectedWords)"

text \<open>\<open>selectedWords.forEach(word => history.add(word.toLowerCase()))\<close>\<close>

definition updateHistory :: "string set \<Rightarrow> string list \<Rightarrow> string set" where
  "updateHistory h selectedWords = foldl (\<lambda>h' w. insert (toLowerCase w) h') h selectedWords"

definition shapeResult :: "config \<Rightarrow> string list \<Rightarrow> result" where
  "shapeResult cfg selectedWords =
     (if asString cfg then Joined (joinWith '', '' selectedWords)
      else if includeMetadata cfg
        then WithMetadata (map (\<lambda>w. Metadata w (length w) (calculateEntropy cfg w)) selectedWords)
      else Words selectedWords)"

subsection \<open>getWords\<close>

text \<open>The pipeline from the filter to the array the selection loop reads.\<close>

definition filteredPool :: "config \<Rightarrow> string list \<Rightarrow> error + string list" where
  "filteredPool cfg defaultWords =
     (let filteredWords = filter (passesFilters cfg) defaultWords in
      if phoneticDistinct cfg then phoneticFilter Map.empty filteredWords
      else Inr filteredWords)"

definition orderedPool :: "config \<Rightarrow> (nat \<Rightarrow> draw) \<Rightarrow> string list \<Rightarrow> string list" where
  "orderedPool cfg rnd filteredWords =
     applySort cfg (shuffle cfg rnd (applyWeightedSelection cfg filteredWords))"

definition finishWords :: "config \<Rightarrow> amount \<Rightarrow> string list \<Rightarrow> string list" where
  "finishWords cfg amountOfWords pool =
     applySynonyms cfg
       (applyCase cfg
          (let selectedWords = selectLoop amountOfWords pool [] 0 in
           if reverse cfg then rev selectedWords else selectedWords))"

text \<open>The array \<open>selectedWords\<close> at the end of the function, from the words the two filters
  left.\<close>

definition selectedWords ::
  "config \<Rightarrow> amount \<Rightarrow> (nat \<Rightarrow> draw) \<Rightarrow> string list \<Rightarrow> string list" where
  "selectedWords cfg amountOfWords rnd filteredWords =
     finishWords cfg amountOfWords (orderedPool cfg rnd filteredWords)"

definition getWords ::
  "config \<Rightarrow> amount \<Rightarrow> string list \<Rightarrow> (nat \<Rightarrow> draw) \<Rightarrow> error + (result \<times> string set)" where
  "getWords cfg amountOfWords customWordsArray rnd =
     (if typeofNotNumber amountOfWords \<or> lessEqZero amountOfWords then Inl ConfigError
      else if strictEqZero amountOfWords
        then Inr (if asString cfg then Joined [] else Words [], history cfg)
      else (case filteredPool cfg customWordsArray of
              Inl e \<Rightarrow> Inl e
            | Inr filteredWords \<Rightarrow>
                Inr (shapeResult cfg (selectedWords cfg amountOfWords rnd filteredWords),
                     updateHistory (history cfg)
                       (selectedWords cfg amountOfWords rnd filteredWords))))"

text \<open>What the caller receives, without the history.\<close>

definition returned :: "error + (result \<times> string set) \<Rightarrow> error + result" where
  "returned r = (case r of Inl e \<Rightarrow> Inl e | Inr (v, h) \<Rightarrow> Inr v)"

subsection \<open>The unsupported options\<close>

text \<open>One of the sixteen options that need linguistic data is set: an array option holds a
  non-empty array, a flag is true, \<open>syllableCount\<close> or \<open>limitSyllables\<close> holds a number.\<close>

definition unsupportedOptionSet :: "config \<Rightarrow> bool" where
  "unsupportedOptionSet cfg =
     (nonEmptyArray (languages cfg) \<or> syllableCount cfg \<noteq> None
      \<or> nonEmptyArray (excludePartsOfSpeech cfg) \<or> nonEmptyArray (includePartsOfSpeech cfg)
      \<or> limitSyllables cfg \<noteq> None
      \<or> nonEmptyArray (excludeWordOrigins cfg) \<or> nonEmptyArray (includeWordOrigins cfg)
      \<or> excludeProperNouns cfg \<or> excludeSlang cfg \<or> nonEmptyArray (synonyms cfg)
      \<or> excludeHomonyms cfg \<or> includeHomonyms cfg
      \<or> excludeCompoundWords cfg \<or> excludeAbbreviations cfg
      \<or> onlyMonosyllabic cfg \<or> onlyPolysyllabic cfg)"

subsection \<open>Inputs of the scenarios\<close>

text \<open>Two sources of draws: \<open>Math.random()\<close> returning \<open>0\<close> every time, and returning the
  largest double below \<open>1\<close> every time.\<close>

definition drawsLow :: "nat \<Rightarrow> draw" where
  "drawsLow k = (0, 0)"

definition drawsHigh :: "nat \<Rightarrow> draw" where
  "drawsHigh k = (2 ^ 53 - 1, 0)"

definition cfgExcludeAmbiguous :: config where
  "cfgExcludeAmbiguous = defaultConfig\<lparr>excludeAmbiguous := True\<rparr>"

definition cfgLengthSort :: config where
  "cfgLengthSort = defaultConfig\<lparr>lengthMin := Some 4, sort_opt := Some ''asc''\<rparr>"

definition cfgSeed :: config where
  "cfgSeed = defaultConfig\<lparr>seed := Some 42\<rparr>"

definition weightsAppleZero :: "string \<rightharpoonup> int" where
  "weightsAppleZero = [''apple'' \<mapsto> 0]"


definition cfgWeightZero :: config where
  "cfgWeightZero = defaultConfig\<lparr>weightedSelection := Some weightsAppleZero\<rparr>"





definition cfgLanguages :: config where
  "cfgLanguages = defaultConfig\<lparr>languages := Some [''en''], customShuffle := Some rev\<rparr>"

section \<open>Properties\<close>

subsection \<open>What a call that returns went through\<close>




subsection \<open>The guard on \<open>amountOfWords\<close>\<close>

text \<open>The early return for zero is never reached: whatever is strictly equal to zero has
  been rejected by the guard.\<close>

lemma guard_rejects:
  "typeofNotNumber amountOfWords \<or> lessEqZero amountOfWords \<Longrightarrow>
     getWords cfg amountOfWords customWordsArray rnd = Inl ConfigError"
  by (simp add: getWords_def)

text \<open>
  Claim C1. The claim: \<open>getWords\<close> with \<open>amountOfWords = 0\<close> does not throw but returns the
  empty array (or the empty string) at once, unlike the other amounts that are not positive.
  The source has that early return (\<open>if (amountOfWords === 0) return asString ? "" : []\<close>,
  under the comment "Early return if amountOfWords is zero"), but the guard in the first
  statement of the function tests \<open>amountOfWords <= 0\<close>, which holds of zero, and throws: the
  early return is dead. For every options object and word list the call with \<open>0\<close> throws
  the configuration error that a negative amount gets.
\<close>

theorem getWords_zero_throws:
  "getWords cfg (Number 0) customWordsArray rnd = Inl ConfigError"
  by (simp add: getWords_def)

subsection \<open>Ambiguous characters\<close>

text \<open>
  Claim C2 as stated fails: with \<open>["Lion","Owl","fish"]\<close>, \<open>{ excludeAmbiguous: true }\<close> and
  the amount 5 the call does not return \<open>["fish"]\<close>.
\<close>

theorem excludeAmbiguous_fish_counterexample:
  "returned (getWords cfgExcludeAmbiguous (Number 5) [''Lion'', ''Owl'', ''fish''] drawsLow)
     \<noteq> Inr (Words [''fish''])"
  by code_simp

text \<open>
  Claim C2, amended. The class \<open>/[l1I0O]/i\<close> is matched without regard to case, so it holds
  the letter \<open>i\<close> as well as \<open>I\<close>: \<open>fish\<close> contains an ambiguous character and is excluded like
  \<open>Lion\<close> and \<open>Owl\<close>. Whatever the shuffle draws, the call returns the empty array and leaves
  the history empty.
\<close>

theorem excludeAmbiguous_scenario:
  "ambiguousChars ''fish''
   \<and> getWords cfgExcludeAmbiguous (Number 5) [''Lion'', ''Owl'', ''fish''] rnd
       = Inr (Words [], {})"
  by code_simp

subsection \<open>The default shuffle and the seed\<close>

declare excessBits.simps [simp del]

lemma excessBits_bound:
  "0 < excessBits p \<Longrightarrow> 2 ^ (52 + excessBits p) \<le> p"
proof (induction p rule: excessBits.induct)
  case (1 p)
  from "1.prems" have ge: "\<not> p < 2 ^ 53"
    by (subst (asm) excessBits.simps) (simp split: if_splits)
  then have eq: "excessBits p = Suc (excessBits (p div 2))"
    by (subst excessBits.simps) simp
  show ?case
  proof (cases "excessBits (p div 2) = 0")
    case True
    then show ?thesis using ge eq by simp
  next
    case False
    then have "2 ^ (52 + excessBits (p div 2)) \<le> p div 2"
      using "1.IH"[OF ge] by simp
    then have "2 * 2 ^ (52 + excessBits (p div 2)) \<le> 2 * (p div 2)" by simp
    also have "\<dots> \<le> p" by simp
    finally have "2 * 2 ^ (52 + excessBits (p div 2)) \<le> p" .
    moreover have "(2::int) ^ (52 + Suc (excessBits (p div 2)))
                     = 2 * 2 ^ (52 + excessBits (p div 2))"
      by (simp add: power_add)
    ultimately show ?thesis unfolding eq by simp
  qed
qed

lemma roundToDouble_nonneg: "0 \<le> p \<Longrightarrow> 0 \<le> roundToDouble p"
  by (auto simp: roundToDouble_def Let_def pos_imp_zdiv_nonneg_iff)

lemma roundToDouble_le:
  "roundToDouble p \<le> p + 2 ^ (excessBits p) div 2"
proof (cases "excessBits p = 0")
  case True
  then show ?thesis by (simp add: roundToDouble_def)
next
  case False
  define s where "s = excessBits p"
  define q where "q = p div 2 ^ s"
  define r where "r = p mod 2 ^ s"
  define h :: int where "h = 2 ^ (s - 1)"
  have "s \<noteq> 0" using False by (simp add: s_def)
  then obtain t where t: "s = Suc t" using not0_implies_Suc by blast
  have p: "p = q * 2 ^ s + r"
    unfolding q_def r_def by (rule div_mult_mod_eq[symmetric])
  have two: "(2::int) ^ s = 2 * h" "(2::int) ^ s div 2 = h"
    by (simp_all add: t h_def)
  have rn: "roundToDouble p = (if h < r \<or> (r = h \<and> odd q) then (q + 1) * 2 ^ s else q * 2 ^ s)"
    unfolding roundToDouble_def Let_def h_def q_def r_def s_def using False by simp
  have r0: "0 \<le> r" by (simp add: r_def)
  have goal: "roundToDouble p \<le> p + h"
  proof (cases "h < r \<or> (r = h \<and> odd q)")
    case True
    then have "h \<le> r" by auto
    moreover have "roundToDouble p = q * 2 ^ s + 2 * h"
      using True rn by (simp add: two algebra_simps)
    ultimately show ?thesis using p by linarith
  next
    case False
    then have "roundToDouble p = q * 2 ^ s" using rn by simp
    moreover have "0 \<le> h" by (simp add: h_def)
    ultimately show ?thesis using p r0 by linarith
  qed
  then show ?thesis unfolding s_def[symmetric] two(2) .
qed

lemma roundToDouble_less:
  assumes "0 \<le> m" "m < 2 ^ 53" "0 < n"
  shows "roundToDouble (m * int n) < int n * 2 ^ 53"
proof -
  define p where "p = m * int n"
  have pn: "p + int n \<le> int n * 2 ^ 53"
  proof -
    have "m + 1 \<le> 2 ^ 53" using assms(2) by simp
    then have "(m + 1) * int n \<le> 2 ^ 53 * int n"
      by (rule mult_right_mono) simp
    then show ?thesis by (simp add: p_def algebra_simps)
  qed
  show ?thesis
  proof (cases "excessBits p = 0")
    case True
    then have "roundToDouble p = p" by (simp add: roundToDouble_def)
    then show ?thesis using pn assms(3) unfolding p_def by linarith
  next
    case False
    then obtain t where t: "excessBits p = Suc t" using not0_implies_Suc by blast
    have "2 ^ (52 + excessBits p) \<le> p"
      using False by (intro excessBits_bound) simp
    then have "2 ^ 53 * 2 ^ t \<le> p" by (simp add: t power_add)
    also have "p < int n * 2 ^ 53" using pn assms(3) by linarith
    finally have "(2::int) ^ 53 * 2 ^ t < 2 ^ 53 * int n" by (simp add: mult.commute)
    then have "(2::int) ^ t < int n" by simp
    moreover have "roundToDouble p \<le> p + 2 ^ t"
      using roundToDouble_le[of p] by (simp add: t)
    ultimately show ?thesis using pn unfolding p_def by linarith
  qed
qed

lemma int_div_less:
  fixes a m n :: int
  assumes m: "0 < m" and lt: "a < n * m"
  shows "a div m < n"
proof -
  have "m * (a div m) + a mod m = a" by (rule mult_div_mod_eq)
  moreover have "0 \<le> a mod m" using m by simp
  ultimately have "m * (a div m) \<le> a" by linarith
  with lt have "m * (a div m) < m * n" by (simp add: mult.commute)
  then show ?thesis using m by (simp add: mult_less_cancel_left_pos)
qed

text \<open>\<open>Math.floor(Math.random() * n)\<close> is an index below \<open>n\<close>, rounding included.\<close>

lemma randomIndex_less:
  assumes n: "0 < n"
  shows "randomIndex d n < n"
proof -
  define m where "m = fst d mod 2 ^ 53"
  define e where "e = snd d"
  define v where "v = roundToDouble (m * int n)"
  have m: "0 \<le> m" "m < 2 ^ 53" by (simp_all add: m_def)
  have "v < int n * 2 ^ 53" unfolding v_def using m n by (rule roundToDouble_less)
  also have "\<dots> \<le> int n * 2 ^ (53 + e)"
  proof -
    have "(2::int) ^ 53 \<le> 2 ^ (53 + e)" by (rule power_increasing) simp_all
    then show ?thesis by (rule mult_left_mono) simp
  qed
  finally have "v div 2 ^ (53 + e) < int n"
    by (intro int_div_less) simp_all
  moreover have "0 \<le> v" unfolding v_def using m by (intro roundToDouble_nonneg) simp
  then have "0 \<le> v div 2 ^ (53 + e)" by (simp add: pos_imp_zdiv_nonneg_iff)
  ultimately show ?thesis
    using n by (simp add: randomIndex_def nat_less_iff m_def e_def v_def)
qed

text \<open>The option \<open>seed\<close> is destructured and never read: no stage depends on it.\<close>

lemma passesFilters_seed: "passesFilters (cfg\<lparr>seed := s\<rparr>) = passesFilters cfg"
  by (rule ext) (simp add: passesFilters_def Let_def split del: if_split cong del: if_weak_cong)

lemma filteredPool_seed: "filteredPool (cfg\<lparr>seed := s\<rparr>) ws = filteredPool cfg ws"
  by (simp add: filteredPool_def passesFilters_seed)

lemma orderedPool_seed: "orderedPool (cfg\<lparr>seed := s\<rparr>) rnd ws = orderedPool cfg rnd ws"
  by (simp add: orderedPool_def shuffle_def applySort_def applyWeightedSelection_def)

lemma finishWords_seed: "finishWords (cfg\<lparr>seed := s\<rparr>) n ws = finishWords cfg n ws"
  by (simp add: finishWords_def applyCase_def applySynonyms_def)

lemma selectedWords_seed:
  "selectedWords (cfg\<lparr>seed := s\<rparr>) n rnd ws = selectedWords cfg n rnd ws"
  by (simp add: selectedWords_def finishWords_seed orderedPool_seed)

lemma shapeResult_seed: "shapeResult (cfg\<lparr>seed := s\<rparr>) ws = shapeResult cfg ws"
  by (simp add: shapeResult_def calculateEntropy_def)

lemma history_seed: "history (cfg\<lparr>seed := s\<rparr>) = history cfg"
  and asString_seed: "asString (cfg\<lparr>seed := s\<rparr>) = asString cfg"
  by simp_all

lemma getWords_ignores_seed:
  "getWords (cfg\<lparr>seed := s\<rparr>) amountOfWords customWordsArray rnd
     = getWords cfg amountOfWords customWordsArray rnd"
  unfolding getWords_def filteredPool_seed selectedWords_seed shapeResult_seed
    history_seed asString_seed
  by (rule refl)

text \<open>
  Claim C3. The claim: with the same numeric seed and no \<open>customShuffle\<close>, two calls return the
  same order, whatever the wall clock and the call history. The README documents the option
  as "Seed for reproducible randomness in word selection", but the shuffle draws from
  \<open>Math.random()\<close> and the seed is never read (\<open>getWords_ignores_seed\<close>). With the seed 42,
  the words \<open>ab\<close> and \<open>cd\<close> and the amount 2, the call returns \<open>cd, ab\<close> when the ambient
  source draws 0 and \<open>ab, cd\<close> when it draws just below 1: same seed, same input, same
  options, two orders.
\<close>

theorem seed_does_not_fix_order:
  "getWords cfgSeed (Number 2) [''ab'', ''cd''] drawsLow
     = Inr (Words [''cd'', ''ab''], {''ab'', ''cd''})
   \<and> getWords cfgSeed (Number 2) [''ab'', ''cd''] drawsHigh
     = Inr (Words [''ab'', ''cd''], {''ab'', ''cd''})"
  by code_simp

subsection \<open>Weighted selection\<close>

lemma count_list_replicate: "count_list (replicate n x) y = (if x = y then n else 0)"
  by (induction n) auto

text \<open>Every occurrence of a word becomes as many copies as its weight.\<close>

lemma weightedWords_count:
  "count_list (weightedWords ws filteredWords) w
     = count_list filteredWords w * copies (weightOf ws w)"
  by (induction filteredWords) (auto simp: weightedWords_def count_list_replicate)

text \<open>The weight 0 is read as the default weight: a word mapped to 0 and a word absent from
  the mapping (and not an inherited key) are both in the expanded pool as often as before
  the stage.\<close>

lemma weightedWords_zero_or_absent:
  assumes "ws (toLowerCase w) = Some 0
           \<or> (ws (toLowerCase w) = None \<and> toLowerCase w \<notin> set inheritedKeys)"
  shows "count_list (weightedWords ws filteredWords) w = count_list filteredWords w"
  using assms by (auto simp: weightedWords_count weightOf_def)

text \<open>
  Claim C4. The claim: a word that \<open>weightedSelection\<close> maps to the weight 0 contributes no
  copy to the expanded pool, while a word absent from the mapping appears once. The stage
  pushes a word \<open>weight\<close> times, which for 0 would be no copy, but it reads the weight as
  \<open>weightedSelection[word.toLowerCase()] || 1\<close>, and \<open>0 || 1\<close> is \<open>1\<close>: the case of a weight
  that is present and zero is taken for the case of no weight. With
  \<open>weightedSelection: { apple: 0 }\<close> the word \<open>apple\<close> is still in the expanded pool, once, and
  \<open>getWords\<close> returns it.
\<close>

theorem weight_zero_keeps_word:
  "weightsAppleZero (toLowerCase ''apple'') = Some 0
   \<and> weightedWords weightsAppleZero [''apple'', ''pear''] = [''apple'', ''pear'']
   \<and> returned (getWords cfgWeightZero (Number 5) [''apple''] drawsLow) = Inr (Words [''apple''])"
  by code_simp

subsection \<open>The length of the output\<close>

lemma length_swap: "length (swap i j xs) = length xs"
  by (simp add: swap_def)



















subsection \<open>The unsupported options\<close>

lemma if_then_False: "(if c then False else b) = (\<not> c \<and> b)"
  by simp

text \<open>Each of the sixteen options, once set, makes the filter callback return false for
  every word.\<close>

lemma unsupported_rejects:
  assumes "unsupportedOptionSet cfg"
  shows "\<not> passesFilters cfg w"
  using assms unfolding unsupportedOptionSet_def
  by (elim disjE) (simp_all add: passesFilters_def Let_def if_then_False split del: if_split)

lemma orderedPool_Nil:
  assumes "\<forall>f. customShuffle cfg = Some f \<longrightarrow> f [] = []"
  shows "orderedPool cfg rnd [] = []"
  using assms
  by (auto simp: orderedPool_def shuffle_def applySort_def sortBy_def weightedWords_def
      applyWeightedSelection_def split: option.splits)

lemma finishWords_Nil: "finishWords cfg n [] = []"
  by (simp add: finishWords_def applySynonyms_def applyCase_def)

text \<open>
  Claim C6. For a word list that is not empty and a positive amount, when one of the
  unsupported linguistic options is set, \<open>getWords\<close> does not throw: it returns the empty
  result of the shape the options ask for (\<open>""\<close> with \<open>asString\<close>, else \<open>[]\<close>) and leaves the
  history as it was. A \<open>customShuffle\<close>, when one is supplied, is taken to leave the empty
  array empty, as a procedure that permutes its argument does.
\<close>

theorem unsupported_option_gives_empty:
  assumes "unsupportedOptionSet cfg" and "0 < n" and "customWordsArray \<noteq> []"
    and "\<forall>f. customShuffle cfg = Some f \<longrightarrow> f [] = []"
  shows "getWords cfg (Number n) customWordsArray rnd
           = Inr (if asString cfg then Joined []
                  else if includeMetadata cfg then WithMetadata [] else Words [],
                  history cfg)"
proof -
  have "filter (passesFilters cfg) customWordsArray = []"
    using unsupported_rejects[OF assms(1)] by (simp add: filter_empty_conv)
  then have "filteredPool cfg customWordsArray = Inr []"
    by (simp add: filteredPool_def)
  then show ?thesis
    using assms(2) orderedPool_Nil[OF assms(4)]
    by (simp add: getWords_def selectedWords_def finishWords_Nil shapeResult_def
        updateHistory_def)
qed

theorem unsupported_option_gives_empty_witness:
  "getWords cfgLanguages (Number 3) [''apple'', ''pear''] drawsLow = Inr (Words [], {})"
proof -
  have c: "languages cfgLanguages = Some [''en'']" "customShuffle cfgLanguages = Some rev"
    "asString cfgLanguages = False" "includeMetadata cfgLanguages = False"
    "history cfgLanguages = {}"
    by (simp_all add: cfgLanguages_def defaultConfig_def)
  have u: "unsupportedOptionSet cfgLanguages"
    by (simp add: unsupportedOptionSet_def c)
  have s: "\<forall>f. customShuffle cfgLanguages = Some f \<longrightarrow> f [] = []"
    by (simp add: c)
  show ?thesis
    using unsupported_option_gives_empty [OF u _ _ s, of 3 "[''apple'', ''pear'']" drawsLow]
    by (simp add: c)
qed

subsection \<open>The history\<close>




subsection \<open>The phonetic filter\<close>

text \<open>A phonetic code has four characters: the first letter, then digits of the table,
  then zeros.\<close>

lemma codes_length: "map_of codes c = Some code \<Longrightarrow> code \<noteq> [] \<Longrightarrow> length code = 1"
  by (auto simp: codes_def split: if_splits)

lemma soundexLoop_singletons:
  "list_all (\<lambda>x. length x = 1) arr \<Longrightarrow> list_all (\<lambda>x. length x = 1) (soundexLoop cs arr prev)"
  by (induction cs arr prev rule: soundexLoop.induct) (auto simp: codes_length split: option.splits)

lemma padZeros_eq: "padZeros arr = arr @ replicate (4 - length arr) ''0''"
proof (induction arr rule: padZeros.induct)
  case (1 arr)
  show ?case
  proof (cases "length arr < 4")
    case True
    then have "padZeros arr = padZeros (arr @ [''0''])" by (subst padZeros.simps) simp
    also have "\<dots> = (arr @ [''0'']) @ replicate (4 - length (arr @ [''0''])) ''0''"
      using 1 True by simp
    also have "\<dots> = arr @ replicate (4 - length arr) ''0''"
      using True by (simp add: replicate_app_Cons_same flip: replicate_Suc) 
    finally show ?thesis .
  next
    case False
    then show ?thesis by (subst padZeros.simps) simp
  qed
qed

lemma padZeros_length: "4 \<le> length (padZeros arr)"
  unfolding padZeros_eq by simp

lemma length_concat_singletons:
  "list_all (\<lambda>x. length x = 1) xs \<Longrightarrow> length (concat xs) = length xs"
  by (induction xs) auto

lemma soundex_length: 
  assumes "soundex w = Inr c" shows "length c = 4"
proof -
  from assms obtain f a where fa: "toLowerCase w = f # a"
    and c: "c = concat (take 4 (padZeros (soundexLoop a [[toUpperChar f]] [])))"
    by (auto simp: soundex_def split: list.splits)
  let ?arr = "soundexLoop a [[toUpperChar f]] []"
  have s: "list_all (\<lambda>x. length x = 1) ?arr"
    by (rule soundexLoop_singletons) simp
  then have "list_all (\<lambda>x. length x = 1) (take 4 (padZeros ?arr))"
    by (auto simp: padZeros_eq list_all_iff dest: in_set_takeD)
  then have "length c = length (take 4 (padZeros ?arr))"
    unfolding c by (rule length_concat_singletons)
  also have "\<dots> = 4" using padZeros_length[of ?arr] by simp
  finally show ?thesis .
qed

lemma phoneticFilter_subset:
  "phoneticFilter m ws = Inr kept \<Longrightarrow> set kept \<subseteq> set ws"
  by (induction ws arbitrary: m kept) (fastforce split: sum.splits if_splits)+

lemma phoneticFilter_codes:
  "phoneticFilter m ws = Inr kept \<Longrightarrow> w \<in> set ws \<Longrightarrow> \<exists>s. soundex w = Inr s"
  by (induction ws arbitrary: m kept) (auto split: sum.splits if_splits)

lemma phoneticFilter_unseen:
  "phoneticFilter m ws = Inr kept \<Longrightarrow> w \<in> set kept \<Longrightarrow> soundex w = Inr s \<Longrightarrow> m s \<noteq> Some True"
proof (induction ws arbitrary: m kept)
  case Nil
  then show ?case by simp
next
  case (Cons x ws)
  from Cons.prems obtain t where t: "soundex x = Inr t"
    by (auto split: sum.splits)
  show ?case
  proof (cases "m t = Some True")
    case True
    then show ?thesis using Cons t by simp
  next
    case False
    then obtain kept' where k: "phoneticFilter (m(t \<mapsto> True)) ws = Inr kept'" "kept = x # kept'"
      using Cons.prems t by (auto split: sum.splits)
    show ?thesis
    proof (cases "w = x")
      case True
      then show ?thesis using False t Cons.prems(3) by simp
    next
      case False
      then have "w \<in> set kept'" using Cons.prems(2) k(2) by simp
      then have "(m(t \<mapsto> True)) s \<noteq> Some True"
        using Cons.IH[OF k(1) _ Cons.prems(3)] by simp
      then show ?thesis by (simp split: if_splits)
    qed
  qed
qed

lemma phoneticFilter_distinct:
  "phoneticFilter m ws = Inr kept \<Longrightarrow> distinct (map soundex kept)"
proof (induction ws arbitrary: m kept)
  case Nil
  then show ?case by simp
next
  case (Cons w ws)
  from Cons.prems obtain s where s: "soundex w = Inr s"
    by (auto split: sum.splits)
  show ?case
  proof (cases "m s = Some True")
    case True
    then show ?thesis using Cons s by simp
  next
    case False
    then obtain kept' where k: "phoneticFilter (m(s \<mapsto> True)) ws = Inr kept'" "kept = w # kept'"
      using Cons.prems s by (auto split: sum.splits)
    have "soundex w \<notin> soundex ` set kept'"
    proof
      assume "soundex w \<in> soundex ` set kept'"
      then obtain v where "v \<in> set kept'" "soundex v = Inr s" using s by auto
      then show False using phoneticFilter_unseen[OF k(1)] by fastforce
    qed
    then show ?thesis using Cons.IH[OF k(1)] k(2) by simp
  qed
qed

lemma phoneticFilter_first:
  "phoneticFilter m ws = Inr kept \<Longrightarrow> w \<in> set kept \<Longrightarrow>
     find (\<lambda>v. soundex v = soundex w) ws = Some w"
proof (induction ws arbitrary: m kept)
  case Nil
  then show ?case by simp
next
  case (Cons x ws)
  from Cons.prems obtain s where s: "soundex x = Inr s"
    by (auto split: sum.splits)
  show ?case
  proof (cases "m s = Some True")
    case True
    then have k: "phoneticFilter m ws = Inr kept" using Cons.prems s by simp
    have "soundex w \<noteq> Inr s"
      using phoneticFilter_unseen[OF k Cons.prems(2)] True by auto
    then show ?thesis using Cons.IH[OF k Cons.prems(2)] s by simp
  next
    case False
    then obtain kept' where k: "phoneticFilter (m(s \<mapsto> True)) ws = Inr kept'" "kept = x # kept'"
      using Cons.prems s by (auto split: sum.splits)
    show ?thesis
    proof (cases "w = x")
      case True
      then show ?thesis by simp
    next
      case False
      then have w: "w \<in> set kept'" using Cons.prems(2) k(2) by simp
      have "soundex w \<noteq> Inr s"
        using phoneticFilter_unseen[OF k(1) w] by auto
      then show ?thesis using Cons.IH[OF k(1) w] s by simp
    qed
  qed
qed

lemma phoneticFilter_covers:
  "phoneticFilter m ws = Inr kept \<Longrightarrow> w \<in> set ws \<Longrightarrow> soundex w = Inr s \<Longrightarrow>
     m s \<noteq> Some True \<Longrightarrow> \<exists>v\<in>set kept. soundex v = Inr s"
proof (induction ws arbitrary: m kept)
  case Nil
  then show ?case by simp
next
  case (Cons x ws)
  from Cons.prems obtain t where t: "soundex x = Inr t"
    by (auto split: sum.splits)
  show ?case
  proof (cases "m t = Some True")
    case True
    then have k: "phoneticFilter m ws = Inr kept" using Cons.prems t by simp
    have "w \<in> set ws" using Cons.prems True t by auto
    then show ?thesis using Cons.IH[OF k _ Cons.prems(3,4)] by simp
  next
    case False
    then obtain kept' where k: "phoneticFilter (m(t \<mapsto> True)) ws = Inr kept'" "kept = x # kept'"
      using Cons.prems t by (auto split: sum.splits)
    show ?thesis
    proof (cases "s = t")
      case True
      then show ?thesis using k(2) t by simp
    next
      case False
      then have "w \<in> set ws" using Cons.prems t by auto
      moreover have "(m(t \<mapsto> True)) s \<noteq> Some True" using False Cons.prems(4) by simp
      ultimately show ?thesis using Cons.IH[OF k(1) _ Cons.prems(3)] k(2) by auto
    qed
  qed
qed

text \<open>
  Claim C8. With \<open>phoneticDistinct\<close> true, when the phonetic filter returns, no two words it
  keeps have the same phonetic code, every code has four characters, every word kept is the
  first word with its code among the words that passed the filter callback, in their order,
  and every code of those words is still there.
\<close>

theorem phonetic_dedup_keeps_first:
  assumes "phoneticDistinct cfg" and "filteredPool cfg customWordsArray = Inr kept"
  shows "distinct (map soundex kept)
     \<and> (\<forall>w \<in> set kept. \<exists>c. soundex w = Inr c \<and> length c = 4)
     \<and> (\<forall>w \<in> set kept.
           find (\<lambda>v. soundex v = soundex w) (filter (passesFilters cfg) customWordsArray) = Some w)
     \<and> soundex ` set kept = soundex ` set (filter (passesFilters cfg) customWordsArray)"
proof -
  let ?ws = "filter (passesFilters cfg) customWordsArray"
  have pf: "phoneticFilter Map.empty ?ws = Inr kept"
    using assms by (simp add: filteredPool_def)
  have d: "distinct (map soundex kept)"
    using pf by (rule phoneticFilter_distinct)
  have sub: "set kept \<subseteq> set ?ws"
    using pf by (rule phoneticFilter_subset)
  have c: "\<exists>c. soundex w = Inr c \<and> length c = 4" if "w \<in> set kept" for w
    using phoneticFilter_codes[OF pf, of w] sub that soundex_length by blast
  have f: "find (\<lambda>v. soundex v = soundex w) ?ws = Some w" if "w \<in> set kept" for w
    using pf that by (rule phoneticFilter_first)
  have "soundex w \<in> soundex ` set kept" if "w \<in> set ?ws" for w
  proof -
    from phoneticFilter_codes[OF pf that] obtain s where s: "soundex w = Inr s" ..
    from phoneticFilter_covers[OF pf that s] obtain v where "v \<in> set kept" "soundex v = Inr s"
      by auto
    then show ?thesis using s by force
  qed
  then have e: "soundex ` set kept = soundex ` set ?ws"
    using sub by blast
  from d c f e show ?thesis by blast
qed

theorem phonetic_dedup_keeps_first_witness:
  "filteredPool defaultConfig [''Robert'', ''Rupert'', ''apple''] = Inr [''Robert'', ''apple'']
   \<and> soundex ''Robert'' = soundex ''Rupert''
   \<and> distinct (map soundex [''Robert'', ''apple''])"
proof -
  have pd: "phoneticDistinct defaultConfig"
    by (simp add: defaultConfig_def)
  have e: "filteredPool defaultConfig [''Robert'', ''Rupert'', ''apple''] = Inr [''Robert'', ''apple'']"
    by code_simp
  have r: "soundex ''Robert'' = soundex ''Rupert''"
    by code_simp
  show ?thesis
    using phonetic_dedup_keeps_first [OF pd e] e r by blast
qed

subsection \<open>Sorting\<close>

text \<open>The comparison is a total order on strings: total, antisymmetric and transitive.\<close>

lemma of_char_nat_eq: "(of_char c :: nat) = of_char d \<longleftrightarrow> c = d"
  by (rule of_char_eq_iff)

lemma localeCompare_Cons_le:
  "localeCompare (x # xs) (y # ys) \<le> 0
     \<longleftrightarrow> (of_char x :: nat) < of_char y \<or> (x = y \<and> localeCompare xs ys \<le> 0)"
proof (cases "(of_char x :: nat) < of_char y")
  case True
  then show ?thesis by simp
next
  case False
  show ?thesis
  proof (cases "(of_char y :: nat) < of_char x")
    case True
    then show ?thesis using False by auto
  next
    case ge: False
    then have "(of_char x :: nat) = of_char y" using False by simp
    then have "x = y" by (simp only: of_char_nat_eq)
    then show ?thesis by simp
  qed
qed

lemma localeCompare_refl: "localeCompare a a = 0"
  by (induction a) simp_all


lemma localeCompare_Nil_le: "localeCompare [] b \<le> 0"
  by (cases b) simp_all

lemma localeCompare_total: "localeCompare a b \<le> 0 \<or> localeCompare b a \<le> 0"
proof (induction a arbitrary: b)
  case Nil
  then show ?case by (simp add: localeCompare_Nil_le)
next
  case (Cons x xs)
  show ?case
  proof (cases b)
    case Nil
    then show ?thesis by (simp add: localeCompare_Nil_le)
  next
    case (Cons y ys)
    have "(of_char x :: nat) < of_char y \<or> (of_char y :: nat) < of_char x \<or> x = y"
      using of_char_nat_eq[of x y] by linarith
    then show ?thesis
      unfolding Cons localeCompare_Cons_le using Cons.IH[of ys] by blast
  qed
qed

lemma localeCompare_antisym:
  "localeCompare a b \<le> 0 \<Longrightarrow> localeCompare b a \<le> 0 \<Longrightarrow> a = b"
proof (induction a arbitrary: b)
  case Nil
  then show ?case by (cases b) simp_all
next
  case (Cons x xs)
  show ?case
  proof (cases b)
    case Nil
    then show ?thesis using Cons.prems by simp
  next
    case c: (Cons y ys)
    from Cons.prems have
      1: "(of_char x :: nat) < of_char y \<or> (x = y \<and> localeCompare xs ys \<le> 0)" and
      2: "(of_char y :: nat) < of_char x \<or> (y = x \<and> localeCompare ys xs \<le> 0)"
      unfolding c localeCompare_Cons_le by blast+
    from 1 2 have "x = y" "localeCompare xs ys \<le> 0" "localeCompare ys xs \<le> 0"
      by auto
    then show ?thesis using Cons.IH[of ys] c by simp
  qed
qed

lemma localeCompare_trans:
  "localeCompare a b \<le> 0 \<Longrightarrow> localeCompare b c \<le> 0 \<Longrightarrow> localeCompare a c \<le> 0"
proof (induction a arbitrary: b c)
  case Nil
  then show ?case by (simp add: localeCompare_Nil_le)
next
  case (Cons x xs)
  from Cons.prems(1) obtain y ys where b: "b = y # ys"
    by (cases b) simp_all
  from Cons.prems(2) b obtain z zs where c: "c = z # zs"
    by (cases c) simp_all
  from Cons.prems have
    1: "(of_char x :: nat) < of_char y \<or> (x = y \<and> localeCompare xs ys \<le> 0)" and
    2: "(of_char y :: nat) < of_char z \<or> (y = z \<and> localeCompare ys zs \<le> 0)"
    unfolding b c localeCompare_Cons_le by blast+
  have "(of_char x :: nat) < of_char z \<or> (x = z \<and> localeCompare xs zs \<le> 0)"
  proof (cases "x = y \<and> y = z")
    case True
    then show ?thesis using 1 2 Cons.IH[of ys zs] by auto
  next
    case False
    then show ?thesis using 1 2 by auto
  qed
  then show ?case unfolding c localeCompare_Cons_le .
qed


lemma mset_insertBy: "mset (insertBy cmp x xs) = add_mset x (mset xs)"
  by (induction xs) auto

lemma mset_sortBy: "mset (sortBy cmp xs) = mset xs"
  by (induction xs) (simp_all add: sortBy_def mset_insertBy)

lemma set_insertBy: "set (insertBy cmp x xs) = insert x (set xs)"
  by (induction xs) auto

lemma sorted_insertBy:
  assumes total: "\<And>a b. cmp a b \<le> 0 \<or> cmp b a \<le> 0"
    and trans: "\<And>a b c. cmp a b \<le> 0 \<Longrightarrow> cmp b c \<le> 0 \<Longrightarrow> cmp a c \<le> 0"
  shows "sorted_wrt (\<lambda>a b. cmp a b \<le> 0) xs \<Longrightarrow> sorted_wrt (\<lambda>a b. cmp a b \<le> 0) (insertBy cmp x xs)"
proof (induction xs)
  case Nil
  then show ?case by simp
next
  case (Cons y ys)
  show ?case
  proof (cases "cmp x y \<le> 0")
    case True
    then show ?thesis using Cons.prems trans by auto
  next
    case False
    then have "cmp y x \<le> 0" using total by blast
    then show ?thesis using False Cons by (auto simp: set_insertBy)
  qed
qed

lemma sorted_sortBy:
  assumes total: "\<And>a b. cmp a b \<le> 0 \<or> cmp b a \<le> 0"
    and trans: "\<And>a b c. cmp a b \<le> 0 \<Longrightarrow> cmp b c \<le> 0 \<Longrightarrow> cmp a c \<le> 0"
  shows "sorted_wrt (\<lambda>a b. cmp a b \<le> 0) (sortBy cmp xs)"
proof (induction xs)
  case Nil
  then show ?case by (simp add: sortBy_def)
next
  case (Cons x xs)
  then show ?case
    using sorted_insertBy[of cmp "sortBy cmp xs" x, OF total trans]
    by (simp add: sortBy_def)
qed

lemma sorted_unique:
  assumes "sorted_wrt (\<lambda>a b. cmp a b \<le> 0) xs" "sorted_wrt (\<lambda>a b. cmp a b \<le> 0) ys"
    and "mset xs = mset ys"
    and "\<And>a b. a \<in> set xs \<Longrightarrow> b \<in> set xs \<Longrightarrow> cmp a b \<le> 0 \<Longrightarrow> cmp b a \<le> 0 \<Longrightarrow> a = b"
  shows "xs = ys"
  using assms
proof (induction xs arbitrary: ys)
  case Nil
  then show ?case by simp
next
  case (Cons x xs)
  then obtain y ys' where ys: "ys = y # ys'" by (cases ys) auto
  have sets: "set (x # xs) = set ys" using Cons.prems(3) by (rule mset_eq_setD)
  have "x = y"
  proof (rule ccontr)
    assume ne: "x \<noteq> y"
    then have "x \<in> set ys'" "y \<in> set xs" using sets ys by auto
    then have "cmp y x \<le> 0" "cmp x y \<le> 0" using Cons.prems(1,2) ys by auto
    moreover have "y \<in> set (x # xs)" using sets ys by simp
    ultimately show False using Cons.prems(4)[of x y] ne by simp
  qed
  moreover have "xs = ys'"
  proof (rule Cons.IH)
    show "mset xs = mset ys'" using Cons.prems(3) ys \<open>x = y\<close> by simp
  qed (use Cons.prems ys in auto)
  ultimately show ?case using ys by simp
qed

lemma sortBy_permutation:
  assumes total: "\<And>a b. cmp a b \<le> 0 \<or> cmp b a \<le> 0"
    and trans: "\<And>a b c. cmp a b \<le> 0 \<Longrightarrow> cmp b c \<le> 0 \<Longrightarrow> cmp a c \<le> 0"
    and anti: "\<And>a b. a \<in> set xs \<Longrightarrow> b \<in> set xs \<Longrightarrow> cmp a b \<le> 0 \<Longrightarrow> cmp b a \<le> 0 \<Longrightarrow> a = b"
    and perm: "mset xs = mset ys"
  shows "sortBy cmp xs = sortBy cmp ys"
proof (rule sorted_unique[where cmp = cmp])
  show "sorted_wrt (\<lambda>a b. cmp a b \<le> 0) (sortBy cmp xs)"
    by (rule sorted_sortBy[OF total trans])
  show "sorted_wrt (\<lambda>a b. cmp a b \<le> 0) (sortBy cmp ys)"
    by (rule sorted_sortBy[OF total trans])
  show "mset (sortBy cmp xs) = mset (sortBy cmp ys)"
    by (simp add: mset_sortBy perm)
  fix a b
  assume "a \<in> set (sortBy cmp xs)" "b \<in> set (sortBy cmp xs)" "cmp a b \<le> 0" "cmp b a \<le> 0"
  moreover have "set (sortBy cmp xs) = set xs"
    by (rule mset_eq_setD) (rule mset_sortBy)
  ultimately show "a = b" using anti by simp
qed

lemma mset_swap': "i < length xs \<Longrightarrow> j < length xs \<Longrightarrow> mset (swap i j xs) = mset xs"
  using mset_swap[of j xs i] by (simp add: swap_def)

lemma mset_fisherYates:
  "i < length xs \<Longrightarrow> mset (fisherYates rnd k i xs) = mset xs"
proof (induction i arbitrary: k xs)
  case 0
  then show ?case by simp
next
  case (Suc i)
  have "randomIndex (rnd k) (Suc i + 1) < Suc i + 1"
    by (rule randomIndex_less) simp
  then have j: "randomIndex (rnd k) (Suc i + 1) < length xs" using Suc.prems by simp
  have "mset (swap (Suc i) (randomIndex (rnd k) (Suc i + 1)) xs) = mset xs"
    using Suc.prems j by (rule mset_swap')
  moreover have "i < length (swap (Suc i) (randomIndex (rnd k) (Suc i + 1)) xs)"
    using Suc.prems by (simp add: length_swap)
  ultimately show ?case using Suc.IH by simp
qed

lemma applySort_permutation:
  assumes "mset xs = mset ys"
    and "sort_opt cfg = Some ''asc'' \<or> sort_opt cfg = Some ''desc''"
    and "\<And>a b. a \<in> set xs \<Longrightarrow> b \<in> set xs \<Longrightarrow> toLowerCase a = toLowerCase b \<Longrightarrow> a = b"
  shows "applySort cfg xs = applySort cfg ys"
proof -
  have asc: "sortBy (\<lambda>a b. localeCompare (toLowerCase a) (toLowerCase b)) xs
           = sortBy (\<lambda>a b. localeCompare (toLowerCase a) (toLowerCase b)) ys"
  proof (rule sortBy_permutation[OF _ _ _ assms(1)])
    fix a b c :: string
    show "localeCompare (toLowerCase a) (toLowerCase b) \<le> 0
          \<or> localeCompare (toLowerCase b) (toLowerCase a) \<le> 0"
      by (rule localeCompare_total)
    show "localeCompare (toLowerCase a) (toLowerCase b) \<le> 0 \<Longrightarrow>
          localeCompare (toLowerCase b) (toLowerCase c) \<le> 0 \<Longrightarrow>
          localeCompare (toLowerCase a) (toLowerCase c) \<le> 0"
      by (rule localeCompare_trans)
    show "a \<in> set xs \<Longrightarrow> b \<in> set xs \<Longrightarrow>
          localeCompare (toLowerCase a) (toLowerCase b) \<le> 0 \<Longrightarrow>
          localeCompare (toLowerCase b) (toLowerCase a) \<le> 0 \<Longrightarrow> a = b"
      using localeCompare_antisym[of "toLowerCase a" "toLowerCase b"] assms(3)[of a b]
      by simp
  qed
  have desc: "sortBy (\<lambda>a b. localeCompare (toLowerCase b) (toLowerCase a)) xs
           = sortBy (\<lambda>a b. localeCompare (toLowerCase b) (toLowerCase a)) ys"
  proof (rule sortBy_permutation[OF _ _ _ assms(1)])
    fix a b c :: string
    show "localeCompare (toLowerCase b) (toLowerCase a) \<le> 0
          \<or> localeCompare (toLowerCase a) (toLowerCase b) \<le> 0"
      by (rule localeCompare_total)
    show "localeCompare (toLowerCase b) (toLowerCase a) \<le> 0 \<Longrightarrow>
          localeCompare (toLowerCase c) (toLowerCase b) \<le> 0 \<Longrightarrow>
          localeCompare (toLowerCase c) (toLowerCase a) \<le> 0"
      by (rule localeCompare_trans)
    show "a \<in> set xs \<Longrightarrow> b \<in> set xs \<Longrightarrow>
          localeCompare (toLowerCase b) (toLowerCase a) \<le> 0 \<Longrightarrow>
          localeCompare (toLowerCase a) (toLowerCase b) \<le> 0 \<Longrightarrow> a = b"
      using localeCompare_antisym[of "toLowerCase a" "toLowerCase b"] assms(3)[of a b]
      by simp
  qed
  show ?thesis
    unfolding applySort_def using asc desc assms(2) by auto
qed

text \<open>When a sort is requested and the words of the pool that agree up to case are the same
  word, the order before the selection loop is the sorted order of the pool after weighting,
  whatever the default shuffle draws and whatever a \<open>customShuffle\<close> that permutes does.\<close>

lemma sort_overrides_shuffle:
  assumes "sort_opt cfg = Some ''asc'' \<or> sort_opt cfg = Some ''desc''"
    and "\<forall>f xs. customShuffle cfg = Some f \<longrightarrow> mset (f xs) = mset xs"
    and "inj_on toLowerCase (set (applyWeightedSelection cfg filteredWords))"
  shows "orderedPool cfg rnd filteredWords
           = applySort cfg (applyWeightedSelection cfg filteredWords)"
proof -
  let ?pool = "applyWeightedSelection cfg filteredWords"
  have "mset (shuffle cfg rnd ?pool) = mset ?pool"
  proof (cases "customShuffle cfg")
    case None
    show ?thesis
    proof (cases "?pool = []")
      case True
      then show ?thesis using None by (simp add: shuffle_def)
    next
      case False
      then have "length ?pool - 1 < length ?pool" by simp
      then show ?thesis using None by (simp add: shuffle_def mset_fisherYates)
    qed
  next
    case (Some f)
    then show ?thesis using assms(2) by (simp add: shuffle_def)
  qed
  then have "applySort cfg (shuffle cfg rnd ?pool) = applySort cfg ?pool"
  proof (rule applySort_permutation[OF _ assms(1)])
    fix a b
    assume "a \<in> set (shuffle cfg rnd ?pool)" "b \<in> set (shuffle cfg rnd ?pool)"
      "toLowerCase a = toLowerCase b"
    moreover have "set (shuffle cfg rnd ?pool) = set ?pool"
      using \<open>mset (shuffle cfg rnd ?pool) = mset ?pool\<close> by (rule mset_eq_setD)
    ultimately show "a = b" using assms(3) by (simp add: inj_on_def)
  qed
  then show ?thesis by (simp add: orderedPool_def)
qed

lemma lengthSort_pool:
  "filteredPool cfgLengthSort [''apple'', ''ant'', ''banana'', ''bee'', ''crab'']
     = Inr [''apple'', ''banana'', ''crab'']"
  by code_simp

lemma lengthSort_sorted:
  "applySort cfgLengthSort [''apple'', ''banana'', ''crab'']
     = [''apple'', ''banana'', ''crab'']"
  by code_simp

lemma lengthSort_finish:
  "finishWords cfgLengthSort (Number 3) [''apple'', ''banana'', ''crab'']
     = [''apple'', ''banana'', ''crab'']"
  by code_simp

text \<open>
  Claim C9. With \<open>["apple","ant","banana","bee","crab"]\<close>, \<open>{ lengthMin: 4, sort: "asc" }\<close> and
  the amount 3: the filter and the phonetic filter keep apple, banana and crab; the order
  before the selection loop is apple, banana, crab for every sequence of draws of the
  shuffle, because the sort puts every order the shuffle can leave into the same one; and
  \<open>getWords\<close> returns \<open>["apple","banana","crab"]\<close> and adds the three words to the history.
\<close>

theorem lengthMin_sort_scenario:
  "filteredPool cfgLengthSort [''apple'', ''ant'', ''banana'', ''bee'', ''crab'']
     = Inr [''apple'', ''banana'', ''crab'']
   \<and> orderedPool cfgLengthSort rnd [''apple'', ''banana'', ''crab'']
     = [''apple'', ''banana'', ''crab'']
   \<and> getWords cfgLengthSort (Number 3) [''apple'', ''ant'', ''banana'', ''bee'', ''crab''] rnd
     = Inr (Words [''apple'', ''banana'', ''crab''], {''apple'', ''banana'', ''crab''})"
proof -
  let ?pool = "[''apple'', ''banana'', ''crab'']"
  have cs: "customShuffle cfgLengthSort = None" "weightedSelection cfgLengthSort = None"
    "sort_opt cfgLengthSort = Some ''asc''"
    "history cfgLengthSort = {}" "asString cfgLengthSort = False"
    "includeMetadata cfgLengthSort = False"
    by (simp_all add: cfgLengthSort_def defaultConfig_def)
  have w: "applyWeightedSelection cfgLengthSort ?pool = ?pool"
    by (simp add: applyWeightedSelection_def cs)
  have "distinct (map toLowerCase ?pool)"
    by code_simp
  then have "inj_on toLowerCase (set ?pool)"
    by (simp only: distinct_map)
  then have "orderedPool cfgLengthSort rnd ?pool = applySort cfgLengthSort ?pool"
    using sort_overrides_shuffle[of cfgLengthSort ?pool rnd] by (simp add: cs w)
  then have o: "orderedPool cfgLengthSort rnd ?pool = ?pool"
    by (simp only: lengthSort_sorted)
  then show ?thesis
    by (auto simp add: getWords_def selectedWords_def lengthSort_pool lengthSort_finish
        shapeResult_def cs updateHistory_def toLowerCase_def toLowerChar_def)
qed

subsection \<open>The phonetic code of the empty word\<close>

lemma soundex_error: "soundex w = Inl e \<Longrightarrow> e = TypeError \<and> w = []"
  by (auto simp: soundex_def toLowerCase_def split: list.splits)

lemma soundex_empty: "soundex [] = Inl TypeError"
  by (simp add: soundex_def toLowerCase_def)

lemma phoneticFilter_empty_word:
  "[] \<in> set ws \<Longrightarrow> phoneticFilter m ws = Inl TypeError"
proof (induction ws arbitrary: m)
  case Nil
  then show ?case by simp
next
  case (Cons w ws)
  show ?case
  proof (cases "soundex w")
    case (Inl e)
    then show ?thesis using soundex_error[OF Inl] by simp
  next
    case (Inr s)
    then have "w \<noteq> []" using soundex_empty by auto
    with Cons.prems have "[] \<in> set ws" by auto
    then show ?thesis using Inr Cons.IH by simp
  qed
qed

lemma empty_word_passes_default: "passesFilters defaultConfig []"
  by (simp add: passesFilters_def defaultConfig_def toLowerCase_def hasDigit_def
      hasNonLetter_def)

text \<open>
  Claim C10. The empty word passes the filter callback under the default options, and
  whenever the word list holds the empty word, the options let it pass the filter callback
  and \<open>phoneticDistinct\<close> is true, a call with a positive amount throws a TypeError:
  \<open>soundex\<close> takes the first letter with \<open>a.shift()\<close>, which is \<open>undefined\<close> on the empty
  word, and calls \<open>toUpperCase\<close> on it.
\<close>

theorem empty_word_throws:
  assumes "0 < n" and "phoneticDistinct cfg"
    and "[] \<in> set customWordsArray" and "passesFilters cfg []"
  shows "passesFilters defaultConfig []
         \<and> getWords cfg (Number n) customWordsArray rnd = Inl TypeError"
proof -
  have "[] \<in> set (filter (passesFilters cfg) customWordsArray)"
    using assms by simp
  then have "filteredPool cfg customWordsArray = Inl TypeError"
    using assms(2) by (simp add: filteredPool_def phoneticFilter_empty_word)
  then show ?thesis
    using assms(1) by (simp add: getWords_def empty_word_passes_default)
qed

theorem empty_word_throws_witness:
  "phoneticDistinct defaultConfig
   \<and> getWords defaultConfig (Number 1) [''apple'', ''''] drawsLow = Inl TypeError"
proof -
  have pd: "phoneticDistinct defaultConfig"
    by (simp add: defaultConfig_def)
  show ?thesis
    using empty_word_throws [of 1 defaultConfig "[''apple'', '''']" drawsLow,
        OF _ pd _ empty_word_passes_default] pd
    by simp
qed

end
